theory Spec2Isabelle
  imports Main "HOL-Library.Word" "HOL-Library.Product_Lexorder"
begin

section \<open>Identifiers and messages\<close>

text \<open>
  A peer id is a 128-bit uuid, a time stamp an unsigned 64-bit counter. A message id is the
  pair (time stamp, original poster), compared lexicographically (the order on pairs of
  \<open>Product_Lexorder\<close>).
\<close>

type_synonym uuid = "128 word"
type_synonym TimeStamp = "64 word"
type_synonym MessageId = "TimeStamp \<times> uuid"
type_synonym Bytes = "8 word list"

record AckData =
  acked_message_id :: MessageId
  predecessor_id :: MessageId
  neighbors :: "uuid set"

record Header =
  original_poster :: uuid
  time_stamp :: TimeStamp
  config_id :: MessageId
  visited :: "uuid set"

datatype MessageType = fuse | port_offer | user_data | ack

text \<open>
  The four message kinds that \<open>on_recv\<close> is instantiated with. Their declarations are in
  \<open>message.h\<close> of the hub, which is missing; the fields are the ones that \<open>hub.cpp\<close>
  reads and constructs, and a port offer carries an ack payload as the specification
  says (section 3).
\<close>

datatype Message =
    Fuse (header: Header) (ack_data: AckData) (target: uuid)
  | PortOffer (header: Header) (ack_data: AckData) (addressor: uuid)
      (internal_port: "16 word") (external_port: "16 word")
  | UserData (header: Header) (ack_data: AckData) (data: Bytes)
  | Ack (header: Header) (ack_data: AckData)

fun message_type :: "Message \<Rightarrow> MessageType" where
  "message_type (Fuse _ _ _) = fuse"
| "message_type (PortOffer _ _ _ _ _) = port_offer"
| "message_type (UserData _ _ _) = user_data"
| "message_type (Ack _ _) = ack"

definition message_id :: "Message \<Rightarrow> MessageId" where
  \<comment> \<open>Modelled from the spec: \<open>message_id.h\<close> is missing. The id of a message is its
      time stamp and its original poster.\<close>
  "message_id m = (time_stamp (header m), original_poster (header m))"

fun set_visited :: "uuid set \<Rightarrow> Message \<Rightarrow> Message" where
  "set_visited v (Fuse h a t) = Fuse (h\<lparr>visited := v\<rparr>) a t"
| "set_visited v (PortOffer h a t i e) = PortOffer (h\<lparr>visited := v\<rparr>) a t i e"
| "set_visited v (UserData h a d) = UserData (h\<lparr>visited := v\<rparr>) a d"
| "set_visited v (Ack h a) = Ack (h\<lparr>visited := v\<rparr>) a"

section \<open>Ordered maps\<close>

text \<open>
  A \<open>std::map\<close> is a list of key-value pairs in ascending key order: iteration order is
  the list order. \<open>map_of\<close> is \<open>find\<close>.
\<close>

fun assign :: "'k::linorder \<Rightarrow> 'v \<Rightarrow> ('k \<times> 'v) list \<Rightarrow> ('k \<times> 'v) list" where
  "assign k v [] = [(k, v)]"
| "assign k v ((k', v') # xs) =
     (if k < k' then (k, v) # (k', v') # xs
      else if k = k' then (k, v) # xs
      else (k', v') # assign k v xs)"

definition emplace :: "'k::linorder \<Rightarrow> 'v \<Rightarrow> ('k \<times> 'v) list \<Rightarrow> ('k \<times> 'v) list" where
  "emplace k v xs = (case map_of xs k of None \<Rightarrow> assign k v xs | Some _ \<Rightarrow> xs)"

definition erase :: "'k \<Rightarrow> ('k \<times> 'v) list \<Rightarrow> ('k \<times> 'v) list" where
  "erase k xs = filter (\<lambda>p. fst p \<noteq> k) xs"

section \<open>Self-replacing callbacks\<close>

text \<open>
  A \<open>std::function\<close> held in a callback slot. Running it with its arguments may call
  \<open>reset\<close> on the slot that holds it, any number of times, each time with a new function
  or with an empty one; the list is those calls in order. The second component is whatever
  else the call did to the world.
\<close>

datatype ('a, 'r) std_function =
  Func "'a \<Rightarrow> ('a, 'r) std_function option list \<times> 'r"

record ('a, 'r) Callback =
  func :: "('a, 'r) std_function option"
  was_reset :: bool

definition reset ::
  "('a, 'r) std_function option \<Rightarrow> ('a, 'r) Callback \<Rightarrow> ('a, 'r) Callback" where
  "reset f cb = cb\<lparr>was_reset := True, func := f\<rparr>"

definition to_bool :: "('a, 'r) Callback \<Rightarrow> bool" where
  "to_bool cb = (func cb \<noteq> None)"

text \<open>
  \<open>operator()\<close>: the function is moved out of the slot (which is empty meanwhile), run,
  and moved back unless the flag was raised. Calling an empty \<open>std::function\<close> throws;
  the result is then \<open>None\<close>.
\<close>

definition call :: "('a, 'r) Callback \<Rightarrow> 'a \<Rightarrow> ('a, 'r) Callback \<times> 'r option" where
  "call cb args =
     (let cb1 = cb\<lparr>was_reset := False\<rparr>;
          f = func cb1;
          cb2 = cb1\<lparr>func := None\<rparr>
      in case f of
           None \<Rightarrow> (cb2, None)
         | Some (Func body) \<Rightarrow>
             (let (resets, r) = body args;
                  cb3 = fold reset resets cb2
              in (if \<not> was_reset cb3 then cb3\<lparr>func := f\<rparr> else cb3, Some r)))"

section \<open>The log\<close>

text \<open>
  \<open>log.h\<close> is not among the sources; the log entry, the log and their operations follow
  the specification's words (sections 3, 4.2 and 4.3). The key of an entry in the log is
  its message id, so \<open>entry.message_id()\<close> is the key, and the original poster of the
  entry's message is the key's second component.
\<close>

record LogEntry =
  message :: "Message option"
  acks :: "(uuid \<times> AckData) list"
  predecessors :: "(MessageId \<times> unit) list"

definition entry_message_type :: "LogEntry \<Rightarrow> MessageType option" where
  \<comment> \<open>Modelled from the spec: \<open>LogEntry::message_type()\<close> is missing. A placeholder
      that has not received its body has no type.\<close>
  "entry_message_type e = map_option message_type (message e)"

definition ackers :: "LogEntry \<Rightarrow> uuid set" where
  \<comment> \<open>the keys of \<open>acks\<close>\<close>
  "ackers e = set (map fst (acks e))"

definition acked_by_quorum :: "LogEntry \<Rightarrow> bool" where
  \<comment> \<open>Modelled from the spec: \<open>LogEntry::acked_by_quorum()\<close> is missing. It holds iff there
      is at least one acker and every ack's neighbors equal the set of ackers.\<close>
  "acked_by_quorum e =
     (acks e \<noteq> [] \<and> list_all (\<lambda>p. neighbors (snd p) = ackers e) (acks e))"

definition quorum :: "LogEntry \<Rightarrow> uuid set" where
  \<comment> \<open>Modelled from the spec: the quorum of an entry is its set of ackers.\<close>
  "quorum e = ackers e"

definition acked_by_quorum_of :: "uuid set \<Rightarrow> LogEntry \<Rightarrow> bool" where
  \<comment> \<open>Modelled from the spec: the overload \<open>acked_by_quorum(live_nodes)\<close> is missing. It
      requires in addition that the quorum equals the live nodes.\<close>
  "acked_by_quorum_of live_nodes e = (acked_by_quorum e \<and> quorum e = live_nodes)"

definition LogEntry_of :: "Message \<Rightarrow> LogEntry" where
  \<comment> \<open>Modelled from the spec: the constructor \<open>LogEntry(Message)\<close> is missing. The
      message's own ack payload is the original poster's ack.\<close>
  "LogEntry_of m =
     \<lparr>message = Some m,
      acks = [(original_poster (header m), ack_data m)],
      predecessors = [(predecessor_id (ack_data m), ())]\<rparr>"

record Log =
  entries :: "(MessageId \<times> LogEntry) list"
  last_committed :: MessageId
  last_commit_op :: uuid
  last_fuse_commit :: MessageId

definition Log_new :: Log where
  \<comment> \<open>Modelled from the spec: the constructor \<open>Log()\<close> is missing; the message ids start
      at the default (0, nil).\<close>
  "Log_new = \<lparr>entries = [], last_committed = (0, 0), last_commit_op = 0,
              last_fuse_commit = (0, 0)\<rparr>"

definition insert_entry :: "Message \<Rightarrow> Log \<Rightarrow> Log" where
  \<comment> \<open>Modelled from the spec: \<open>Log::insert_entry\<close> is missing. It is idempotent on the
      message id and folds the ack payload into an entry that is already there (the
      placeholder receives its body).\<close>
  "insert_entry m l =
     (case map_of (entries l) (message_id m) of
        None \<Rightarrow> l\<lparr>entries := assign (message_id m) (LogEntry_of m) (entries l)\<rparr>
      | Some e \<Rightarrow>
          l\<lparr>entries := assign (message_id m)
              (e\<lparr>message := (case message e of None \<Rightarrow> Some m | Some m0 \<Rightarrow> Some m0),
                 acks := assign (original_poster (header m)) (ack_data m) (acks e),
                 predecessors := assign (predecessor_id (ack_data m)) () (predecessors e)\<rparr>)
              (entries l)\<rparr>)"

definition apply_ack :: "uuid \<Rightarrow> AckData \<Rightarrow> Log \<Rightarrow> Log" where
  \<comment> \<open>Modelled from the spec: \<open>Log::apply_ack\<close> is missing. It updates the addressed
      entry, and creates a placeholder that carries only the acks when the acked message
      has not been received yet.\<close>
  "apply_ack acker a l =
     (case map_of (entries l) (acked_message_id a) of
        None \<Rightarrow>
          l\<lparr>entries := assign (acked_message_id a)
              \<lparr>message = None, acks = [(acker, a)], predecessors = [(predecessor_id a, ())]\<rparr>
              (entries l)\<rparr>
      | Some e \<Rightarrow>
          l\<lparr>entries := assign (acked_message_id a)
              (e\<lparr>acks := assign acker a (acks e),
                 predecessors := assign (predecessor_id a) () (predecessors e)\<rparr>)
              (entries l)\<rparr>)"

definition find_highest_fuse_entry :: "Log \<Rightarrow> (MessageId \<times> LogEntry) option" where
  \<comment> \<open>Modelled from the spec: \<open>Log::find_highest_fuse_entry\<close> is missing.\<close>
  "find_highest_fuse_entry l =
     List.find (\<lambda>p. entry_message_type (snd p) = Some fuse) (rev (entries l))"

definition get_predecessor_time :: "MessageId \<Rightarrow> Log \<Rightarrow> MessageId" where
  \<comment> \<open>Modelled from the spec: \<open>Log::get_predecessor_time\<close> is missing. The greatest id
      strictly less than the given one among the entries, else the last committed id.\<close>
  "get_predecessor_time mid l =
     (case List.find (\<lambda>p. fst p < mid) (rev (entries l)) of
        None \<Rightarrow> last_committed l
      | Some p \<Rightarrow> fst p)"

section \<open>The seen-message filter\<close>

text \<open>
  \<open>seen_messages.h\<close> is not among the sources. Per original poster, the filter holds the
  highest time stamp below which everything was seen (if any) and the set of time stamps
  seen above it.
\<close>

type_synonym SeenMessages = "(uuid \<times> TimeStamp option \<times> TimeStamp set) list"

definition is_in :: "MessageId \<Rightarrow> SeenMessages \<Rightarrow> bool" where
  \<comment> \<open>Modelled from the spec: \<open>SeenMessages::is_in\<close> is missing.\<close>
  "is_in mid s =
     (case map_of s (snd mid) of
        None \<Rightarrow> False
      | Some (floor, stamps) \<Rightarrow>
          (case floor of None \<Rightarrow> False | Some t \<Rightarrow> fst mid \<le> t) \<or> fst mid \<in> stamps)"

definition seen_insert :: "MessageId \<Rightarrow> SeenMessages \<Rightarrow> SeenMessages" where
  \<comment> \<open>Modelled from the spec: \<open>SeenMessages::insert\<close> is missing.\<close>
  "seen_insert mid s =
     (case map_of s (snd mid) of
        None \<Rightarrow> assign (snd mid) (None, {fst mid}) s
      | Some (floor, stamps) \<Rightarrow> assign (snd mid) (floor, insert (fst mid) stamps) s)"

definition seen_everything_up_to :: "MessageId \<Rightarrow> SeenMessages \<Rightarrow> SeenMessages" where
  \<comment> \<open>Modelled from the spec: \<open>SeenMessages::seen_everything_up_to\<close> is missing. It
      collapses the original poster's history up to the time stamp.\<close>
  "seen_everything_up_to mid s =
     (case map_of s (snd mid) of
        None \<Rightarrow> assign (snd mid) (Some (fst mid), {}) s
      | Some (floor, stamps) \<Rightarrow>
          assign (snd mid)
            (Some (case floor of None \<Rightarrow> fst mid | Some t \<Rightarrow> max t (fst mid)),
             Set.filter (\<lambda>t. fst mid < t) stamps) s)"

definition forget_messages_from_user :: "uuid \<Rightarrow> SeenMessages \<Rightarrow> SeenMessages" where
  \<comment> \<open>Modelled from the spec: \<open>SeenMessages::forget_messages_from_user\<close> is missing.\<close>
  "forget_messages_from_user i s = erase i s"

section \<open>The hub\<close>

type_synonym Address = nat

datatype Socket = Socket (remote_address: Address)

text \<open>
  \<open>node.h\<close> is not among the sources: a peer record has a connectivity flag, an address
  (0 when unspecified), the peers it is known to be connected to, and the ports of a port
  offer.
\<close>

record Node =
  connected :: bool
  address :: Address
  peers :: "(uuid \<times> Address) list"
  remote_port :: "(16 word \<times> 16 word) option"

definition Node_new :: Node where
  \<comment> \<open>Modelled from the spec: the constructor \<open>Node(hub, id)\<close> is missing. The record is
      a disconnected placeholder.\<close>
  "Node_new = \<lparr>connected = False, address = 0, peers = [], remote_port = None\<rparr>"

definition Node_with_socket :: "Socket \<Rightarrow> Node" where
  \<comment> \<open>Modelled from the spec: the constructor \<open>Node(hub, id, socket)\<close> is missing. The
      socket is a freshly connected one.\<close>
  "Node_with_socket s = Node_new\<lparr>connected := True, address := remote_address s\<rparr>"

definition assign_socket :: "Socket \<Rightarrow> Node \<Rightarrow> Node" where
  \<comment> \<open>Modelled from the spec: \<open>Node::assign_socket\<close> is missing. The record is rebound
      to the new socket.\<close>
  "assign_socket s n = n\<lparr>connected := True, address := remote_address s\<rparr>"

record Graph =
  nodes :: "uuid set"
  edges :: "(uuid \<times> uuid) set"

datatype error_code =
  success | connection_refused | no_protocol_option | already_connected | transport_error nat

text \<open>
  What the hub does to the outside, in order: bytes handed to a peer's transport (the
  encoding of a message stands for its bytes, the codec being outside of the hub), sockets
  closed, completions and application callbacks run.
\<close>

text \<open>
  The buffer that \<open>node_received_unreliable_broadcast\<close> hands to the application: it
  starts four bytes after the source id and its size is the remaining size minus four,
  computed in \<open>size_t\<close> without a check. With at least four bytes left it is the
  rest of the frame; with fewer the size wraps around and the buffer reaches beyond the
  frame.
\<close>

datatype unreliable_payload =
    Payload Bytes
  | BeyondFrame (wrapped_size: "64 word")

datatype event =
    Send uuid Message
  | SendUnreliable uuid Bytes
  | SocketClose Socket
  | OnFused error_code uuid
  | OnInsert "uuid set"
  | OnRemove "uuid set"
  | OnReceive uuid Bytes
  | OnReceiveUnreliable uuid unreliable_payload

text \<open>
  The application's callbacks. What a call does to the world is whether it destroyed the
  hub (\<open>True\<close>); besides that it may reset the slot it runs from.
\<close>

record Callbacks =
  cb_on_insert :: "(uuid set, bool) Callback"
  cb_on_remove :: "(uuid set, bool) Callback"
  cb_on_receive :: "(uuid \<times> Bytes, bool) Callback"
  cb_on_receive_unreliable :: "(uuid \<times> unreliable_payload, bool) Callback"

definition safe_exec :: "('a, bool) Callback \<Rightarrow> 'a \<Rightarrow> ('a, bool) Callback \<times> bool" where
  "safe_exec f args =
     (if \<not> to_bool f then (f, False)
      else (case call f args of (f', r) \<Rightarrow> (f', r = Some True)))"

record hub =
  h_callbacks :: Callbacks
  h_id :: uuid
  h_log :: Log
  h_time_stamp :: TimeStamp
  h_nodes :: "(uuid \<times> Node) list"
  h_configs :: "(MessageId \<times> uuid set) list"
  h_broadcast_routing_table :: Graph
  h_was_destroyed :: bool
  h_seen :: SeenMessages
  h_events :: "event list"

definition emit :: "event list \<Rightarrow> hub \<Rightarrow> hub" where
  "emit evs h = h\<lparr>h_events := h_events h @ evs\<rparr>"

definition Callbacks_on_insert :: "uuid set \<Rightarrow> hub \<Rightarrow> hub" where
  "Callbacks_on_insert args h =
     (let cbs = h_callbacks h; (f, destroyed) = safe_exec (cb_on_insert cbs) args
      in (emit (if to_bool (cb_on_insert cbs) then [OnInsert args] else []) h)
           \<lparr>h_callbacks := cbs\<lparr>cb_on_insert := f\<rparr>,
            h_was_destroyed := (h_was_destroyed h \<or> destroyed)\<rparr>)"

definition Callbacks_on_remove :: "uuid set \<Rightarrow> hub \<Rightarrow> hub" where
  "Callbacks_on_remove args h =
     (let cbs = h_callbacks h; (f, destroyed) = safe_exec (cb_on_remove cbs) args
      in (emit (if to_bool (cb_on_remove cbs) then [OnRemove args] else []) h)
           \<lparr>h_callbacks := cbs\<lparr>cb_on_remove := f\<rparr>,
            h_was_destroyed := (h_was_destroyed h \<or> destroyed)\<rparr>)"

definition Callbacks_on_receive :: "uuid \<Rightarrow> Bytes \<Rightarrow> hub \<Rightarrow> hub" where
  "Callbacks_on_receive op d h =
     (let cbs = h_callbacks h; (f, destroyed) = safe_exec (cb_on_receive cbs) (op, d)
      in (emit (if to_bool (cb_on_receive cbs) then [OnReceive op d] else []) h)
           \<lparr>h_callbacks := cbs\<lparr>cb_on_receive := f\<rparr>,
            h_was_destroyed := (h_was_destroyed h \<or> destroyed)\<rparr>)"

definition Callbacks_on_receive_unreliable :: "uuid \<Rightarrow> unreliable_payload \<Rightarrow> hub \<Rightarrow> hub" where
  "Callbacks_on_receive_unreliable src d h =
     (let cbs = h_callbacks h; (f, destroyed) = safe_exec (cb_on_receive_unreliable cbs) (src, d)
      in (emit (if to_bool (cb_on_receive_unreliable cbs) then [OnReceiveUnreliable src d] else []) h)
           \<lparr>h_callbacks := cbs\<lparr>cb_on_receive_unreliable := f\<rparr>,
            h_was_destroyed := (h_was_destroyed h \<or> destroyed)\<rparr>)"

definition single_node_graph :: "uuid \<Rightarrow> Graph" where
  "single_node_graph i = \<lparr>nodes = {i}, edges = {}\<rparr>"

definition hub_new :: "uuid \<Rightarrow> Callbacks \<Rightarrow> hub" where
  "hub_new i cbs =
     \<lparr>h_callbacks = cbs,
      h_id = i,
      h_log = Log_new\<lparr>last_commit_op := i\<rparr>,
      h_time_stamp = 0,
      h_nodes = [(i, Node_new)],
      h_configs = [((0, i), {i})],
      h_broadcast_routing_table = single_node_graph i,
      h_was_destroyed = False,
      h_seen = [],
      h_events = []\<rparr>"

definition find_node :: "uuid \<Rightarrow> hub \<Rightarrow> Node option" where
  "find_node i h = map_of (h_nodes h) i"

definition insert_node :: "uuid \<Rightarrow> Node \<Rightarrow> hub \<Rightarrow> hub" where
  "insert_node i n h = h\<lparr>h_nodes := emplace i n (h_nodes h)\<rparr>"

text \<open>
  \<open>_configs.rbegin()\<close>. The source asserts that the map is not empty before it reads it
  (the constructor adds a configuration and none is ever removed); on an empty map the
  model reads the genesis configuration of nobody.
\<close>

definition configs_rbegin :: "hub \<Rightarrow> MessageId \<times> uuid set" where
  "configs_rbegin h = (case h_configs h of [] \<Rightarrow> ((0, 0), {}) | c # cs \<Rightarrow> last (c # cs))"

definition hub_neighbors :: "hub \<Rightarrow> uuid set" where
  "hub_neighbors h =
     insert (h_id h)
       (set (map fst (filter (\<lambda>p. fst p \<noteq> h_id h \<and> connected (snd p)) (h_nodes h))))"

definition broadcast_targets :: "Message \<Rightarrow> hub \<Rightarrow> uuid list" where
  "broadcast_targets msg h =
     map fst (filter (\<lambda>p. fst p \<noteq> h_id h \<and> connected (snd p)
                           \<and> fst p \<notin> visited (header msg)) (h_nodes h))"

definition broadcast :: "Message \<Rightarrow> hub \<Rightarrow> hub" where
  "broadcast msg h = emit (map (\<lambda>i. Send i msg) (broadcast_targets msg h)) h"

text \<open>
  Assertions are compiled out: the model is the release build, where the code after a
  failed assertion runs.
\<close>

definition add_log_entry :: "Message \<Rightarrow> hub \<Rightarrow> hub" where
  "add_log_entry msg h =
     (if message_id msg \<le> last_committed (h_log h) \<and> message_type msg \<noteq> fuse then h
      else h\<lparr>h_log := insert_entry msg (h_log h)\<rparr>)"

definition construct_ackable :: "(Header \<Rightarrow> AckData \<Rightarrow> Message) \<Rightarrow> hub \<Rightarrow> Message \<times> hub" where
  "construct_ackable mk h =
     (let h1 = h\<lparr>h_time_stamp := h_time_stamp h + 1\<rparr>;
          m_id = (h_time_stamp h1, h_id h1);
          pred = get_predecessor_time m_id (h_log h1);
          a = \<lparr>acked_message_id = m_id, predecessor_id = pred, neighbors = hub_neighbors h1\<rparr>
      in (mk \<lparr>original_poster = h_id h1, time_stamp = h_time_stamp h1,
               config_id = fst (configs_rbegin h1), visited = {h_id h1}\<rparr> a, h1))"

definition construct_ack :: "MessageId \<Rightarrow> hub \<Rightarrow> Message \<times> hub" where
  "construct_ack msg_id h =
     (let pred = get_predecessor_time msg_id (h_log h);
          nb = hub_neighbors h;
          h1 = h\<lparr>h_time_stamp := h_time_stamp h + 1\<rparr>;
          a = \<lparr>acked_message_id = msg_id, predecessor_id = pred, neighbors = nb\<rparr>;
          m = Ack \<lparr>original_poster = h_id h1, time_stamp = h_time_stamp h1,
                   config_id = fst (configs_rbegin h1), visited = {h_id h1}\<rparr> a
      in (m, h1\<lparr>h_log := apply_ack (h_id h1) a (h_log h1)\<rparr>))"

definition acks_to_graph :: "(uuid \<times> AckData) list \<Rightarrow> Graph" where
  "acks_to_graph as =
     fold (\<lambda>p g. g\<lparr>nodes := insert (fst p) (nodes g),
                    edges := edges g \<union> (\<lambda>peer. (fst p, peer)) ` neighbors (snd p)\<rparr>)
       as \<lparr>nodes = {}, edges = {}\<rparr>"

section \<open>The commit driver\<close>

text \<open>
  \<open>on_commit_fuse\<close>. The loop over the removed peers forgets each one's messages and
  erases its record; the order does not matter, so the model removes them together.
\<close>

definition install_quorum :: "MessageId \<Rightarrow> LogEntry \<Rightarrow> hub \<Rightarrow> hub" where
  \<comment> \<open>lines 369 to 384\<close>
  "install_quorum k entry h =
     (let h1 = h\<lparr>h_broadcast_routing_table := acks_to_graph (acks entry)\<rparr>;
          prev_quorum = snd (configs_rbegin h1);
          removed = prev_quorum - quorum entry;
          h2 = h1\<lparr>h_configs := emplace k (quorum entry) (h_configs h1)\<rparr>
      in h2\<lparr>h_seen := filter (\<lambda>p. fst p \<notin> removed) (h_seen h2),
             h_nodes := filter (\<lambda>p. fst p \<notin> removed) (h_nodes h2)\<rparr>)"

definition on_commit_fuse :: "MessageId \<Rightarrow> LogEntry \<Rightarrow> hub \<Rightarrow> hub" where
  "on_commit_fuse k entry h =
     (if \<not> acked_by_quorum entry then h
      else
        let prev_quorum = snd (configs_rbegin h);
            removed = prev_quorum - quorum entry;
            added = quorum entry - prev_quorum;
            h3 = install_quorum k entry h;
            h4 = (if added \<noteq> {} then Callbacks_on_insert added h3 else h3)
        in if added \<noteq> {} \<and> h_was_destroyed h4 then h4
           else if removed \<noteq> {} then Callbacks_on_remove removed h4
           else h4)"

definition commit_user_data :: "uuid \<Rightarrow> Bytes \<Rightarrow> hub \<Rightarrow> hub" where
  "commit_user_data op d h =
     (if find_node op h = None then h else Callbacks_on_receive op d h)"

definition commit :: "MessageId \<Rightarrow> LogEntry \<Rightarrow> hub \<Rightarrow> hub" where
  "commit k entry h =
     (case message entry of
        Some (Fuse _ _ _) \<Rightarrow> on_commit_fuse k entry h
      | Some (UserData hdr _ d) \<Rightarrow> commit_user_data (original_poster hdr) d h
      | _ \<Rightarrow> h)"

text \<open>
  The first part of the loop body of \<open>commit_what_was_seen_by_everyone\<close> (lines 522 to
  554): what happens to the entry before its predecessors are looked at. \<open>Erase\<close> is the
  branch that ends in \<open>continue\<close>, \<open>Break\<close> the three that end in \<open>break\<close>, \<open>Pass\<close> the
  ones that fall through. The pointer \<open>last_committable_fuse\<close> is the key of the entry it
  points to.
\<close>

datatype verdict = Erase | Break | Pass

definition fuse_gate :: "MessageId option \<Rightarrow> uuid set \<Rightarrow> MessageId \<Rightarrow> LogEntry \<Rightarrow> verdict" where
  "fuse_gate last_committable_fuse live_nodes k entry =
     (if entry_message_type entry = Some fuse then
        (case last_committable_fuse of
           Some fk \<Rightarrow>
             if k < fk then
               (if \<not> acked_by_quorum_of live_nodes entry then Erase else Pass)
             else
               (if k \<noteq> fk then Break else Pass)
         | None \<Rightarrow> Break)
      else
        (if \<not> acked_by_quorum_of live_nodes entry then Break else Pass))"

text \<open>
  The second part (lines 557 to 574): walking the predecessors from the greatest, the
  first one that is the last committed id, or any at all once a configuration with the
  entry's config id is known; the walk breaks when that predecessor is neither the last
  committed id nor at most the last committed fuse.
\<close>

definition config_known :: "LogEntry \<Rightarrow> hub \<Rightarrow> bool" where
  "config_known entry h =
     (case message entry of
        None \<Rightarrow> False
      | Some m \<Rightarrow> map_of (h_configs h) (config_id (header m)) \<noteq> None)"

definition predecessor_gap :: "LogEntry \<Rightarrow> hub \<Rightarrow> bool" where
  "predecessor_gap entry h =
     (case List.find (\<lambda>p. fst p = last_committed (h_log h) \<or> config_known entry h)
             (rev (predecessors entry)) of
        None \<Rightarrow> False
      | Some p \<Rightarrow> fst p \<noteq> last_committed (h_log h) \<and> fst p > last_fuse_commit (h_log h))"

definition drop_entry :: "MessageId \<Rightarrow> hub \<Rightarrow> hub" where
  \<comment> \<open>lines 533 to 535\<close>
  "drop_entry k h =
     h\<lparr>h_log := (h_log h)\<lparr>last_committed := k, last_commit_op := snd k,
                           entries := erase k (entries (h_log h))\<rparr>\<rparr>"

definition take_entry :: "MessageId \<Rightarrow> LogEntry \<Rightarrow> hub \<Rightarrow> hub" where
  \<comment> \<open>lines 582 to 592\<close>
  "take_entry k entry h =
     h\<lparr>h_log := (h_log h)\<lparr>entries := erase k (entries (h_log h)),
                           last_fuse_commit :=
                             (if entry_message_type entry = Some fuse then k
                              else last_fuse_commit (h_log h)),
                           last_committed := k,
                           last_commit_op := snd k\<rparr>,
       h_seen := seen_everything_up_to k (h_seen h)\<rparr>"

text \<open>
  The head-first loop. The list is the range from \<open>entry_i\<close> to the end of the log; the
  log itself is in the hub.
\<close>

fun walk :: "MessageId option \<Rightarrow> uuid set \<Rightarrow> (MessageId \<times> LogEntry) list \<Rightarrow> hub \<Rightarrow> hub" where
  "walk last_committable_fuse live_nodes [] h = h"
| "walk last_committable_fuse live_nodes ((k, entry) # rest) h =
     (case fuse_gate last_committable_fuse live_nodes k entry of
        Erase \<Rightarrow> walk last_committable_fuse live_nodes rest (drop_entry k h)
      | Break \<Rightarrow> h
      | Pass \<Rightarrow>
          if predecessor_gap entry h then h
          else
            let h1 = commit k entry (take_entry k entry h)
            in if h_was_destroyed h1 then h1
               else walk (if last_committable_fuse = Some k then None else last_committable_fuse)
                      live_nodes rest h1)"

definition find_last_committable_fuse ::
  "(MessageId \<times> LogEntry) list \<Rightarrow> (MessageId \<times> LogEntry) option" where
  \<comment> \<open>lines 488 to 494\<close>
  "find_last_committable_fuse es =
     List.find (\<lambda>p. entry_message_type (snd p) = Some fuse \<and> acked_by_quorum (snd p)) (rev es)"

definition commit_what_was_seen_by_everyone :: "hub \<Rightarrow> hub" where
  "commit_what_was_seen_by_everyone h =
     (case find_last_committable_fuse (entries (h_log h)) of
        None \<Rightarrow> walk None (snd (configs_rbegin h)) (entries (h_log h)) h
      | Some (fk, e) \<Rightarrow> walk (Some fk) (quorum e) (entries (h_log h)) h)"


section \<open>The inbound path\<close>

text \<open>
  \<open>process\<close>, one equation for each overload. The node passed to it is the original
  poster's record, given by its id.
\<close>

definition ack_and_commit :: "MessageId \<Rightarrow> hub \<Rightarrow> hub" where
  \<comment> \<open>\<open>broadcast(construct_ack(msg_id)); commit_what_was_seen_by_everyone();\<close>\<close>
  "ack_and_commit msg_id h =
     (case construct_ack msg_id h of
        (a, h1) \<Rightarrow> commit_what_was_seen_by_everyone (broadcast a h1))"

fun process :: "uuid \<Rightarrow> Message \<Rightarrow> hub \<Rightarrow> hub" where
  "process op (Ack hdr a) h = h\<lparr>h_log := apply_ack (original_poster hdr) a (h_log h)\<rparr>"
| "process op (Fuse hdr a t) h =
     (let msg_id = message_id (Fuse hdr a t);
          h1 = add_log_entry (Fuse hdr a t) h
      in case find_highest_fuse_entry (h_log h1) of
           Some fuse_entry \<Rightarrow>
             if msg_id \<ge> fst fuse_entry then ack_and_commit msg_id h1 else h1
         | None \<Rightarrow> ack_and_commit msg_id h1)"
| "process op (PortOffer hdr a addr ip ep) h =
     (if addr \<noteq> h_id h then h
      else h\<lparr>h_nodes := map (\<lambda>p. if fst p = op then (fst p, (snd p)\<lparr>remote_port := Some (ip, ep)\<rparr>)
                                  else p) (h_nodes h)\<rparr>)"
| "process op (UserData hdr a d) h =
     (case construct_ack (message_id (UserData hdr a d)) h of
        (ak, h1) \<Rightarrow> add_log_entry (UserData hdr a d) (broadcast ak h1))"

definition on_recv :: "Message \<Rightarrow> hub \<Rightarrow> hub" where
  "on_recv msg0 h =
     (let msg = set_visited (insert (h_id h) (visited (header msg0))) msg0;
          op_id = original_poster (header msg);
          op = find_node op_id h
      in if is_in (message_id msg) (h_seen h) then h
         else
           let h1 = h\<lparr>h_seen := seen_insert (message_id msg) (h_seen h)\<rparr>;
               h2 = h1\<lparr>h_time_stamp := max (h_time_stamp h1) (time_stamp (header msg))\<rparr>;
               h3 = (if op = None then insert_node op_id Node_new h2 else h2)
           in if op_id = h_id h then h3
              else
                let h4 = process op_id msg (broadcast msg h3)
                in if h_was_destroyed h4 then h4
                   else commit_what_was_seen_by_everyone h4)"

section \<open>The outbound path\<close>

definition add_connection :: "uuid \<Rightarrow> uuid \<Rightarrow> Address \<Rightarrow> hub \<Rightarrow> hub" where
  \<comment> \<open>the record of \<open>from\<close> is there when this is called (it is the local one)\<close>
  "add_connection from to addr h =
     h\<lparr>h_nodes := map (\<lambda>p. if fst p = from then (fst p, (snd p)\<lparr>peers := assign to addr (peers (snd p))\<rparr>)
                            else p) (h_nodes h)\<rparr>"

definition run_on_fused :: "(error_code \<Rightarrow> uuid \<Rightarrow> bool) \<Rightarrow> error_code \<Rightarrow> uuid \<Rightarrow> hub \<Rightarrow> hub" where
  \<comment> \<open>the completion handler of \<open>fuse\<close>; its result says whether it destroyed the hub\<close>
  "run_on_fused on_fused e i h =
     (emit [OnFused e i] h)\<lparr>h_was_destroyed := (h_was_destroyed h \<or> on_fused e i)\<rparr>"

definition fusion_failed ::
  "Socket \<Rightarrow> (error_code \<Rightarrow> uuid \<Rightarrow> bool) \<Rightarrow> error_code \<Rightarrow> hub \<Rightarrow> hub" where
  "fusion_failed socket on_fused e h = run_on_fused on_fused e 0 (emit [SocketClose socket] h)"

text \<open>
  \<open>hub::fuse\<close>, from the moment its handler runs with the result of the reliable
  exchange. The protocol version and the decoder of the reply are not among the sources:
  they are parameters. The decoder yields the remote version and id, or nothing when it
  is in error after reading both.
\<close>

definition hub_fuse ::
  "32 word \<Rightarrow> (Bytes \<Rightarrow> (32 word \<times> uuid) option) \<Rightarrow> Socket \<Rightarrow> (error_code \<Rightarrow> uuid \<Rightarrow> bool)
     \<Rightarrow> error_code \<Rightarrow> Bytes \<Rightarrow> hub \<Rightarrow> hub" where
  "hub_fuse NET_PROTOCOL_VERSION decode socket on_fused error buffer h =
     (if h_was_destroyed h then h
      else if error \<noteq> success then fusion_failed socket on_fused error h
      else
        case decode buffer of
          None \<Rightarrow> fusion_failed socket on_fused connection_refused h
        | Some (his_protocol_version, his_id) \<Rightarrow>
            if his_protocol_version \<noteq> NET_PROTOCOL_VERSION then
              fusion_failed socket on_fused no_protocol_option h
            else if h_id h = his_id then
              fusion_failed socket on_fused already_connected h
            else
              let h1 = (case find_node his_id h of
                          Some n \<Rightarrow> h\<lparr>h_nodes := assign his_id (assign_socket socket n) (h_nodes h)\<rparr>
                        | None \<Rightarrow> insert_node his_id (Node_with_socket socket) h)
              in case construct_ackable (\<lambda>hdr a. Fuse hdr a his_id) h1 of
                   (fuse_msg, h2) \<Rightarrow>
                     let h3 = add_log_entry fuse_msg (broadcast fuse_msg h2);
                         h4 = add_connection (h_id h3) his_id (remote_address socket) h3;
                         h5 = run_on_fused on_fused success his_id h4
                     in if h_was_destroyed h5 then h5
                        else commit_what_was_seen_by_everyone h5)"

definition total_order_broadcast :: "Bytes \<Rightarrow> hub \<Rightarrow> hub" where
  \<comment> \<open>the part that runs at once; the commit pass is posted to the reactor\<close>
  "total_order_broadcast d h =
     (case construct_ackable (\<lambda>hdr a. UserData hdr a d) h of
        (msg, h1) \<Rightarrow> add_log_entry msg (broadcast msg h1))"

definition posted_commit :: "hub \<Rightarrow> hub" where
  \<comment> \<open>the closure that \<open>total_order_broadcast\<close> posts\<close>
  "posted_commit h = (if h_was_destroyed h then h else commit_what_was_seen_by_everyone h)"

definition on_peer_disconnected :: "uuid \<Rightarrow> hub \<Rightarrow> hub" where
  "on_peer_disconnected node_id h =
     (case construct_ackable (\<lambda>hdr a. Fuse hdr a node_id) h of
        (fuse_msg, h1) \<Rightarrow>
          commit_what_was_seen_by_everyone (add_log_entry fuse_msg (broadcast fuse_msg h1)))"

section \<open>Unreliable broadcast\<close>

text \<open>
  The decoder of the frame's source id and the routing table's \<open>get_targets\<close> are not
  among the sources: they are parameters. The decoder yields the source and the bytes
  after it, or nothing when it is in error. The table is the graph it was last
  recalculated from.
\<close>

definition node_received_unreliable_broadcast ::
  "(Graph \<Rightarrow> uuid \<Rightarrow> uuid list) \<Rightarrow> (Bytes \<Rightarrow> (uuid \<times> Bytes) option) \<Rightarrow> Bytes \<Rightarrow> hub \<Rightarrow> hub" where
  "node_received_unreliable_broadcast get_targets decode buffer h =
     (case decode buffer of
        None \<Rightarrow> h
      | Some (source, rest) \<Rightarrow>
          if map_of (h_nodes h) source = None then h
          else
            Callbacks_on_receive_unreliable source
              (if 4 \<le> length rest then Payload (drop 4 rest)
               else BeyondFrame (of_nat (length rest) - 4))
              (emit (map (\<lambda>i. SendUnreliable i buffer)
                       (filter (\<lambda>i. case find_node i h of None \<Rightarrow> False | Some n \<Rightarrow> connected n)
                          (get_targets (h_broadcast_routing_table h) source))) h))"

section \<open>A run with two peers\<close>

text \<open>
  Peer A broadcasts twice while alone and commits both messages, then fuses with peer B.
  B's own fuse message arrives, then B's ack of A's fuse. The messages of B are the ones
  that B's hub constructs in this run.
\<close>

definition no_callbacks :: Callbacks where
  "no_callbacks =
     \<lparr>cb_on_insert = \<lparr>func = None, was_reset = False\<rparr>,
      cb_on_remove = \<lparr>func = None, was_reset = False\<rparr>,
      cb_on_receive = \<lparr>func = None, was_reset = False\<rparr>,
      cb_on_receive_unreliable = \<lparr>func = None, was_reset = False\<rparr>\<rparr>"

definition peer_A :: uuid where
  "peer_A = 2"

definition peer_B :: uuid where
  "peer_B = 1"

definition A_alone :: hub where
  "A_alone = hub_new peer_A no_callbacks"

definition A_after_broadcasts :: hub where
  "A_after_broadcasts =
     posted_commit (total_order_broadcast [2]
       (posted_commit (total_order_broadcast [1] A_alone)))"

definition A_fused :: hub where
  "A_fused =
     hub_fuse 7 (\<lambda>b. Some (7, peer_B)) (Socket 5) (\<lambda>e i. False) success [] A_after_broadcasts"

definition fuse_of_B :: Message where
  "fuse_of_B =
     Fuse \<lparr>original_poster = peer_B, time_stamp = 1, config_id = (0, peer_B), visited = {peer_B}\<rparr>
       \<lparr>acked_message_id = (1, peer_B), predecessor_id = (0, 0), neighbors = {peer_B, peer_A}\<rparr>
       peer_A"

definition A_got_fuse_of_B :: hub where
  "A_got_fuse_of_B = on_recv fuse_of_B A_fused"

definition ack_of_B :: Message where
  "ack_of_B =
     Ack \<lparr>original_poster = peer_B, time_stamp = 4, config_id = (0, peer_B), visited = {peer_B}\<rparr>
       \<lparr>acked_message_id = (3, peer_A), predecessor_id = (1, peer_B),
        neighbors = {peer_B, peer_A}\<rparr>"

definition A_got_ack_of_B :: hub where
  "A_got_ack_of_B = on_recv ack_of_B A_got_fuse_of_B"



text \<open>
  B's side of the same run: B fuses with A and receives A's fuse.
\<close>

definition B_fused :: hub where
  "B_fused =
     hub_fuse 7 (\<lambda>b. Some (7, peer_A)) (Socket 5) (\<lambda>e i. False) success []
       (hub_new peer_B no_callbacks)"

definition fuse_of_A :: Message where
  "fuse_of_A =
     Fuse \<lparr>original_poster = peer_A, time_stamp = 3, config_id = (0, peer_A), visited = {peer_A}\<rparr>
       \<lparr>acked_message_id = (3, peer_A), predecessor_id = (2, peer_A), neighbors = {peer_A, peer_B}\<rparr>
       peer_B"

definition B_got_fuse_of_A :: hub where
  "B_got_fuse_of_A = on_recv fuse_of_A B_fused"

text \<open>
  A then fuses with a third peer C as well, so that a message of B has somebody to go to.
\<close>

definition peer_C :: uuid where
  "peer_C = 3"

definition A_fused_twice :: hub where
  "A_fused_twice =
     hub_fuse 7 (\<lambda>b. Some (7, peer_C)) (Socket 6) (\<lambda>e i. False) success [] A_fused"

text \<open>
  A, fused with B, broadcasts once more; the message waits for B's ack. \<open>own_message\<close>
  is that message as a peer would send it back.
\<close>

definition A_pending :: hub where
  "A_pending = total_order_broadcast [3] A_fused"

definition own_message :: Message where
  "own_message =
     UserData \<lparr>original_poster = peer_A, time_stamp = 4, config_id = (0, peer_A),
               visited = {peer_A, peer_B}\<rparr>
       \<lparr>acked_message_id = (4, peer_A), predecessor_id = (3, peer_A),
        neighbors = {peer_A, peer_B}\<rparr> [3]"

text \<open>
  Hubs whose application destroys them from a callback: one from \<open>on_receive\<close>, with
  two of its own messages pending; one from \<open>on_insert\<close>, in the state where B's ack
  has made A's fuse committable.
\<close>

definition destroying :: "('a, bool) Callback" where
  "destroying = \<lparr>func = Some (Func (\<lambda>x. ([], True))), was_reset = False\<rparr>"

definition A_two_pending :: hub where
  "A_two_pending =
     total_order_broadcast [2] (total_order_broadcast [1]
       (hub_new peer_A (no_callbacks\<lparr>cb_on_receive := destroying\<rparr>)))"

definition A_committable :: hub where
  "A_committable = A_got_ack_of_B\<lparr>h_callbacks := no_callbacks\<lparr>cb_on_insert := destroying\<rparr>\<rparr>"

definition pending_1 :: Message where
  "pending_1 =
     UserData \<lparr>original_poster = peer_A, time_stamp = 1, config_id = (0, peer_A),
               visited = {peer_A}\<rparr>
       \<lparr>acked_message_id = (1, peer_A), predecessor_id = (0, 0), neighbors = {peer_A}\<rparr> [1]"

definition pending_2 :: Message where
  "pending_2 =
     UserData \<lparr>original_poster = peer_A, time_stamp = 2, config_id = (0, peer_A),
               visited = {peer_A}\<rparr>
       \<lparr>acked_message_id = (2, peer_A), predecessor_id = (1, peer_A), neighbors = {peer_A}\<rparr> [2]"

definition committable_fuse :: LogEntry where
  "committable_fuse =
     \<lparr>message = Some (Fuse \<lparr>original_poster = peer_A, time_stamp = 3, config_id = (0, peer_A),
                             visited = {peer_A}\<rparr>
                       \<lparr>acked_message_id = (3, peer_A), predecessor_id = (2, peer_A),
                        neighbors = {peer_A, peer_B}\<rparr> peer_B),
      acks = [(peer_B, \<lparr>acked_message_id = (3, peer_A), predecessor_id = (1, peer_B),
                         neighbors = {peer_B, peer_A}\<rparr>),
              (peer_A, \<lparr>acked_message_id = (3, peer_A), predecessor_id = (2, peer_A),
                         neighbors = {peer_A, peer_B}\<rparr>)],
      predecessors = [((1, peer_B), ()), ((2, peer_A), ())]\<rparr>"

section \<open>Events added by an operation\<close>

text \<open>
  An operation from \<open>h\<close> to \<open>h'\<close> keeps the hub's id and only adds events, and every
  message it sends was originally posted by the hub itself.
\<close>

definition only_adds_own :: "hub \<Rightarrow> hub \<Rightarrow> bool" where
  "only_adds_own h h' \<longleftrightarrow>
     h_id h' = h_id h
   \<and> (\<exists>evs. h_events h' = h_events h @ evs
          \<and> (\<forall>i m. Send i m \<in> set evs \<longrightarrow> original_poster (header m) = h_id h))"

section \<open>Properties\<close>

subsection \<open>Helper facts\<close>

lemma message_id_set_visited: "message_id (set_visited v m) = message_id m"
  by (cases m) (simp_all add: message_id_def)

lemma header_set_visited: "header (set_visited v m) = (header m)\<lparr>visited := v\<rparr>"
  by (cases m) simp_all

lemma map_of_assign: "map_of (assign k v xs) k = Some v"
  by (induction xs) auto



lemma fusion_failed_fields:
  "h_events (fusion_failed socket on_fused e h) = h_events h @ [SocketClose socket, OnFused e 0]"
  "h_nodes (fusion_failed socket on_fused e h) = h_nodes h"
  "h_log (fusion_failed socket on_fused e h) = h_log h"
  by (simp_all add: fusion_failed_def run_on_fused_def emit_def)

lemma filter_assign_absent:
  "map_of xs k = None \<Longrightarrow> \<not> P (k, v) \<Longrightarrow> filter P (assign k v xs) = filter P xs"
  by (induction xs) (auto split: if_splits)


lemma only_adds_own_refl: "only_adds_own h h"
  by (simp add: only_adds_own_def)

lemma only_adds_own_trans:
  assumes "only_adds_own h1 h2" and "only_adds_own h2 h3"
  shows "only_adds_own h1 h3"
proof -
  from assms(1) obtain e1 where 1: "h_id h2 = h_id h1" "h_events h2 = h_events h1 @ e1"
    "\<forall>i m. Send i m \<in> set e1 \<longrightarrow> original_poster (header m) = h_id h1"
    unfolding only_adds_own_def by blast
  from assms(2) obtain e2 where 2: "h_id h3 = h_id h2" "h_events h3 = h_events h2 @ e2"
    "\<forall>i m. Send i m \<in> set e2 \<longrightarrow> original_poster (header m) = h_id h2"
    unfolding only_adds_own_def by blast
  have "h_events h3 = h_events h1 @ (e1 @ e2)" using 1 2 by simp
  moreover have "\<forall>i m. Send i m \<in> set (e1 @ e2) \<longrightarrow> original_poster (header m) = h_id h1"
    using 1 2 by auto
  ultimately show ?thesis unfolding only_adds_own_def using 1 2 by metis
qed

lemma only_adds_own_same:
  "h_id h' = h_id h \<Longrightarrow> h_events h' = h_events h \<Longrightarrow> only_adds_own h h'"
  by (simp add: only_adds_own_def)

lemma only_adds_own_broadcast:
  "original_poster (header m) = h_id h \<Longrightarrow> only_adds_own h (broadcast m h)"
  by (auto simp: only_adds_own_def broadcast_def emit_def)

lemma only_adds_own_on_insert: "only_adds_own h (Callbacks_on_insert a h)"
  by (auto simp: only_adds_own_def Callbacks_on_insert_def emit_def Let_def split: prod.splits)

lemma only_adds_own_on_remove: "only_adds_own h (Callbacks_on_remove a h)"
  by (auto simp: only_adds_own_def Callbacks_on_remove_def emit_def Let_def split: prod.splits)

lemma only_adds_own_on_receive: "only_adds_own h (Callbacks_on_receive op d h)"
  by (auto simp: only_adds_own_def Callbacks_on_receive_def emit_def Let_def split: prod.splits)

lemma only_adds_own_install_quorum: "only_adds_own h (install_quorum k e h)"
  by (simp add: only_adds_own_def install_quorum_def Let_def)

lemma only_adds_own_on_commit_fuse: "only_adds_own h (on_commit_fuse k e h)"
  unfolding on_commit_fuse_def Let_def
  by (auto intro: only_adds_own_refl only_adds_own_install_quorum
      only_adds_own_trans [OF only_adds_own_install_quorum only_adds_own_on_insert]
      only_adds_own_trans [OF only_adds_own_install_quorum only_adds_own_on_remove]
      only_adds_own_trans [OF only_adds_own_install_quorum
        only_adds_own_trans [OF only_adds_own_on_insert only_adds_own_on_remove]])

lemma only_adds_own_commit: "only_adds_own h (commit k e h)"
  by (auto simp: commit_def commit_user_data_def
      intro: only_adds_own_refl only_adds_own_on_commit_fuse only_adds_own_on_receive
      split: option.splits Message.splits)

lemma only_adds_own_take_entry: "only_adds_own h (take_entry k e h)"
  by (simp add: only_adds_own_def take_entry_def)

lemma only_adds_own_drop_entry: "only_adds_own h (drop_entry k h)"
  by (simp add: only_adds_own_def drop_entry_def)

lemma only_adds_own_walk: "only_adds_own h (walk F live es h)"
proof (induction es arbitrary: F h)
  case Nil
  show ?case by (simp add: only_adds_own_refl)
next
  case (Cons p es)
  obtain k e where p: "p = (k, e)" by (cases p)
  have step: "only_adds_own h (commit k e (take_entry k e h))"
    by (rule only_adds_own_trans [OF only_adds_own_take_entry only_adds_own_commit])
  show ?case
    unfolding p walk.simps
    by (auto simp: Let_def only_adds_own_refl step split: verdict.splits
        intro: only_adds_own_trans [OF only_adds_own_drop_entry Cons.IH]
               only_adds_own_trans [OF step Cons.IH])
qed

lemma only_adds_own_commit_pass: "only_adds_own h (commit_what_was_seen_by_everyone h)"
  by (simp add: commit_what_was_seen_by_everyone_def only_adds_own_walk split: option.splits prod.splits)

lemma only_adds_own_add_log_entry: "only_adds_own h (add_log_entry m h)"
  by (simp add: only_adds_own_def add_log_entry_def)

lemma construct_ack_own:
  assumes "construct_ack mid h = (a, h1)"
  shows "original_poster (header a) = h_id h" and "only_adds_own h h1"
  using assms by (auto simp: construct_ack_def Let_def only_adds_own_def)

lemma only_adds_own_ack_and_commit: "only_adds_own h (ack_and_commit mid h)"
proof -
  obtain a h1 where c: "construct_ack mid h = (a, h1)" by (cases "construct_ack mid h")
  from construct_ack_own [OF c] have 1: "original_poster (header a) = h_id h1" "only_adds_own h h1"
    by (simp_all add: only_adds_own_def)
  show ?thesis
    unfolding ack_and_commit_def c prod.case
    by (rule only_adds_own_trans [OF 1(2)
          only_adds_own_trans [OF only_adds_own_broadcast [OF 1(1)] only_adds_own_commit_pass]])
qed

lemma only_adds_own_process: "only_adds_own h (process op m h)"
proof (cases m)
  case (Fuse hdr a t)
  show ?thesis
    unfolding Fuse process.simps Let_def
    by (auto split: option.splits
        intro: only_adds_own_add_log_entry
               only_adds_own_trans [OF only_adds_own_add_log_entry only_adds_own_ack_and_commit])
next
  case (PortOffer hdr a addr ip ep)
  then show ?thesis by (simp add: only_adds_own_def)
next
  case (UserData hdr a d)
  obtain ak h1 where c: "construct_ack (message_id (UserData hdr a d)) h = (ak, h1)"
    by (cases "construct_ack (message_id (UserData hdr a d)) h")
  from construct_ack_own [OF c] have 1: "original_poster (header ak) = h_id h1" "only_adds_own h h1"
    by (simp_all add: only_adds_own_def)
  show ?thesis
    unfolding UserData process.simps c prod.case
    by (rule only_adds_own_trans [OF 1(2)
          only_adds_own_trans [OF only_adds_own_broadcast [OF 1(1)] only_adds_own_add_log_entry]])
next
  case (Ack hdr a)
  then show ?thesis by (simp add: only_adds_own_def)
qed


lemma only_adds_own_finish:
  "only_adds_own b (let h4 = process op msg b
                    in if h_was_destroyed h4 then h4 else commit_what_was_seen_by_everyone h4)"
  unfolding Let_def
  by (auto intro: only_adds_own_process
      only_adds_own_trans [OF only_adds_own_process only_adds_own_commit_pass])


text \<open>
  In the run of the two peers, the messages that arrive at A are the ones that B sends,
  and A's fuse is the one that B receives.
\<close>

lemma messages_of_the_run:
  "h_events A_fused = [Send peer_B fuse_of_A, OnFused success peer_B]
 \<and> h_events B_fused = [Send peer_A fuse_of_B, OnFused success peer_A]
 \<and> h_events B_got_fuse_of_A = h_events B_fused @ [Send peer_A ack_of_B]"
  by code_simp




subsection \<open>The commit pass and fuse entries\<close>




subsection \<open>The last committed id\<close>

text \<open>
  C2. The last committed id is meant to increase strictly; in the code it can go down.
  In the run of the two peers, A has committed its own message (2, A) when B's fuse
  (1, B) arrives; being a fuse, it is added to the log although its id is below the last
  committed one. When B's ack makes A's own fuse (3, A) committable, the commit pass
  erases the entry (1, B) and assigns its id. After that A's fuse stays in the log: its
  greatest predecessor (2, A) is neither the last committed id nor at most the last
  committed fuse, so no later pass commits it and A keeps the configuration of A alone,
  while B, from the same messages, installs the configuration of A and B.
\<close>

theorem last_committed_decreases:
  "last_committed (h_log A_got_fuse_of_B) = (2, peer_A)
 \<and> last_committed (h_log (on_recv ack_of_B A_got_fuse_of_B)) = (1, peer_B)
 \<and> ((1, peer_B) :: MessageId) < (2, peer_A)
 \<and> map fst (entries (h_log (on_recv ack_of_B A_got_fuse_of_B))) = [(3, peer_A)]
 \<and> h_configs (on_recv ack_of_B A_got_fuse_of_B) = [((0, peer_A), {peer_A})]
 \<and> map fst (entries (h_log (commit_what_was_seen_by_everyone (on_recv ack_of_B A_got_fuse_of_B))))
     = [(3, peer_A)]
 \<and> h_configs B_got_fuse_of_A = [((0, peer_B), {peer_B}), ((3, peer_A), {peer_A, peer_B})]"
  by code_simp

subsection \<open>The inbound path\<close>

text \<open>
  C3, as stated, fails: a message of the hub's own that is not in the seen filter is put
  into the filter before it is dropped. Here A's pending message (4, A) comes back.
\<close>

theorem own_message_changes_seen:
  "original_poster (header own_message) = h_id A_pending
 \<and> h_seen (on_recv own_message A_pending) \<noteq> h_seen A_pending"
  by code_simp

text \<open>
  C3, amended. A message whose original poster is the local peer is dropped after the
  seen filter was consulted and updated and the time stamp raised, and before any
  rebroadcast, processing or commit pass: when its id is in the seen filter the hub is
  as before; otherwise its id is added to the filter and the time stamp is the maximum
  of the local one and the message's. Events, log and configurations are as before, and
  so is the peer table when the local peer has a record.
\<close>

theorem on_recv_own_message:
  assumes "original_poster (header m) = h_id h"
  shows "h_events (on_recv m h) = h_events h
       \<and> h_log (on_recv m h) = h_log h
       \<and> h_configs (on_recv m h) = h_configs h
       \<and> (find_node (h_id h) h \<noteq> None \<longrightarrow> h_nodes (on_recv m h) = h_nodes h)
       \<and> (is_in (message_id m) (h_seen h) \<longrightarrow> on_recv m h = h)
       \<and> (\<not> is_in (message_id m) (h_seen h) \<longrightarrow>
            h_seen (on_recv m h) = seen_insert (message_id m) (h_seen h)
          \<and> h_time_stamp (on_recv m h) = max (h_time_stamp h) (time_stamp (header m)))"
  using assms
  by (auto simp: on_recv_def Let_def message_id_set_visited header_set_visited insert_node_def)

theorem on_recv_own_message_witness:
  "original_poster (header own_message) = h_id A_pending
 \<and> find_node (h_id A_pending) A_pending \<noteq> None
 \<and> \<not> is_in (message_id own_message) (h_seen A_pending)
 \<and> h_events (on_recv own_message A_pending) = h_events A_pending
 \<and> h_log (on_recv own_message A_pending) = h_log A_pending
 \<and> h_nodes (on_recv own_message A_pending) = h_nodes A_pending
 \<and> h_seen (on_recv own_message A_pending) = seen_insert (message_id own_message) (h_seen A_pending)"
proof -
  have o: "original_poster (header own_message) = h_id A_pending"
    by code_simp
  have n: "find_node (h_id A_pending) A_pending \<noteq> None"
    by code_simp
  have s: "\<not> is_in (message_id own_message) (h_seen A_pending)"
    by code_simp
  from on_recv_own_message [OF o] o n s show ?thesis by blast
qed

text \<open>
  C4. For a message that is not in the seen filter and was not posted by the local peer,
  the message that \<open>on_recv\<close> forwards has the local id in its visited set (the visited
  set of the message received, with the local id added); the first events that \<open>on_recv\<close>
  adds are the sends of that message to the peers with a record that are connected and
  are not in that visited set, in the order of the peer table; whatever follows does not
  send the message again. The local peer is in the visited set, so nothing is sent to it.
\<close>

theorem on_recv_rebroadcast:
  assumes "\<not> is_in (message_id m) (h_seen h)" and "original_poster (header m) \<noteq> h_id h"
  shows "h_id h \<in> visited (header (set_visited (insert (h_id h) (visited (header m))) m))
       \<and> visited (header (set_visited (insert (h_id h) (visited (header m))) m))
           = insert (h_id h) (visited (header m))
       \<and> (\<exists>rest.
           h_events (on_recv m h) =
             h_events h
             @ map (\<lambda>i. Send i (set_visited (insert (h_id h) (visited (header m))) m))
                 (map fst (filter (\<lambda>p. connected (snd p)
                                        \<and> fst p \<notin> insert (h_id h) (visited (header m)))
                             (h_nodes h)))
             @ rest
         \<and> (\<forall>i. Send i (set_visited (insert (h_id h) (visited (header m))) m) \<notin> set rest))"
proof -
  define msg where "msg = set_visited (insert (h_id h) (visited (header m))) m"
  define h2 where "h2 = h\<lparr>h_seen := seen_insert (message_id msg) (h_seen h),
                          h_time_stamp := max (h_time_stamp h) (time_stamp (header msg))\<rparr>"
  define h3 where "h3 = (if find_node (original_poster (header msg)) h = None
                         then insert_node (original_poster (header msg)) Node_new h2 else h2)"
  define b where "b = broadcast msg h3"
  define targets where "targets = map fst (filter (\<lambda>p. connected (snd p)
                                        \<and> fst p \<notin> insert (h_id h) (visited (header m))) (h_nodes h))"
  have op: "original_poster (header msg) \<noteq> h_id h"
    using assms(2) by (simp add: msg_def header_set_visited)
  have seen: "\<not> is_in (message_id msg) (h_seen h)"
    using assms(1) by (simp add: msg_def message_id_set_visited)
  have vis: "visited (header msg) = insert (h_id h) (visited (header m))"
    by (simp add: msg_def header_set_visited)
  have id3: "h_id h3 = h_id h" and ev3: "h_events h3 = h_events h"
    by (simp_all add: h3_def h2_def insert_node_def)
  have nodes3: "filter (\<lambda>p. fst p \<noteq> h_id h \<and> connected (snd p) \<and> fst p \<notin> visited (header msg)) (h_nodes h3)
      = filter (\<lambda>p. fst p \<noteq> h_id h \<and> connected (snd p) \<and> fst p \<notin> visited (header msg)) (h_nodes h)"
    by (auto simp: h3_def h2_def insert_node_def emplace_def find_node_def Node_new_def
        intro!: filter_assign_absent)
  have "filter (\<lambda>p. fst p \<noteq> h_id h \<and> connected (snd p) \<and> fst p \<notin> visited (header msg)) (h_nodes h)
      = filter (\<lambda>p. connected (snd p) \<and> fst p \<notin> insert (h_id h) (visited (header m))) (h_nodes h)"
    unfolding vis by (rule filter_cong) auto
  with nodes3 have tg: "broadcast_targets msg h3 = targets"
    by (simp add: broadcast_targets_def targets_def id3)
  have evb: "h_events b = h_events h @ map (\<lambda>i. Send i msg) targets" and idb: "h_id b = h_id h"
    by (simp_all add: b_def broadcast_def emit_def tg ev3 id3)
  have fin: "on_recv m h = (let h4 = process (original_poster (header msg)) msg b
                    in if h_was_destroyed h4 then h4 else commit_what_was_seen_by_everyone h4)"
    using seen op
    by (simp add: on_recv_def Let_def msg_def [symmetric] b_def h3_def h2_def)
  from only_adds_own_finish [of b "original_poster (header msg)" msg]
  obtain rest where r: "h_events (on_recv m h) = h_events b @ rest"
    "\<forall>i m'. Send i m' \<in> set rest \<longrightarrow> original_poster (header m') = h_id b"
    unfolding fin only_adds_own_def by blast
  have "\<forall>i. Send i msg \<notin> set rest"
    using r(2) op idb by auto
  with r(1) evb vis show ?thesis
    unfolding msg_def targets_def by auto
qed

theorem on_recv_rebroadcast_witness:
  "\<not> is_in (message_id fuse_of_B) (h_seen A_fused_twice)
 \<and> original_poster (header fuse_of_B) \<noteq> h_id A_fused_twice
 \<and> h_id A_fused_twice = peer_A
 \<and> peer_A \<notin> visited (header fuse_of_B)
 \<and> peer_A \<in> visited (header (set_visited (insert (h_id A_fused_twice) (visited (header fuse_of_B)))
                              fuse_of_B))
 \<and> set_visited (insert (h_id A_fused_twice) (visited (header fuse_of_B))) fuse_of_B
     = Fuse \<lparr>original_poster = peer_B, time_stamp = 1, config_id = (0, peer_B),
             visited = {peer_A, peer_B}\<rparr>
         \<lparr>acked_message_id = (1, peer_B), predecessor_id = (0, 0),
          neighbors = {peer_B, peer_A}\<rparr> peer_A
 \<and> map fst (filter (\<lambda>p. connected (snd p)
                        \<and> fst p \<notin> insert (h_id A_fused_twice) (visited (header fuse_of_B)))
             (h_nodes A_fused_twice)) = [peer_C]
 \<and> take 1 (drop (length (h_events A_fused_twice)) (h_events (on_recv fuse_of_B A_fused_twice)))
     = [Send peer_C
          (Fuse \<lparr>original_poster = peer_B, time_stamp = 1, config_id = (0, peer_B),
                  visited = {peer_A, peer_B}\<rparr>
             \<lparr>acked_message_id = (1, peer_B), predecessor_id = (0, 0),
              neighbors = {peer_B, peer_A}\<rparr> peer_A)]
 \<and> (\<exists>rest.
       h_events (on_recv fuse_of_B A_fused_twice) =
         h_events A_fused_twice
         @ map (\<lambda>i. Send i (set_visited (insert (h_id A_fused_twice) (visited (header fuse_of_B)))
                               fuse_of_B))
             (map fst (filter (\<lambda>p. connected (snd p)
                           \<and> fst p \<notin> insert (h_id A_fused_twice) (visited (header fuse_of_B)))
                         (h_nodes A_fused_twice)))
         @ rest
     \<and> (\<forall>i. Send i (set_visited (insert (h_id A_fused_twice) (visited (header fuse_of_B)))
                      fuse_of_B) \<notin> set rest))"
proof -
  have s: "\<not> is_in (message_id fuse_of_B) (h_seen A_fused_twice)"
    by code_simp
  have o: "original_poster (header fuse_of_B) \<noteq> h_id A_fused_twice"
    by code_simp
  have i: "h_id A_fused_twice = peer_A"
    by code_simp
  have n: "peer_A \<notin> visited (header fuse_of_B)"
    by code_simp
  have v: "set_visited (insert (h_id A_fused_twice) (visited (header fuse_of_B))) fuse_of_B
     = Fuse \<lparr>original_poster = peer_B, time_stamp = 1, config_id = (0, peer_B),
             visited = {peer_A, peer_B}\<rparr>
         \<lparr>acked_message_id = (1, peer_B), predecessor_id = (0, 0),
          neighbors = {peer_B, peer_A}\<rparr> peer_A"
    by code_simp
  have t: "map fst (filter (\<lambda>p. connected (snd p)
                        \<and> fst p \<notin> insert (h_id A_fused_twice) (visited (header fuse_of_B)))
             (h_nodes A_fused_twice)) = [peer_C]"
    by code_simp
  have e: "take 1 (drop (length (h_events A_fused_twice)) (h_events (on_recv fuse_of_B A_fused_twice)))
     = [Send peer_C
          (Fuse \<lparr>original_poster = peer_B, time_stamp = 1, config_id = (0, peer_B),
                  visited = {peer_A, peer_B}\<rparr>
             \<lparr>acked_message_id = (1, peer_B), predecessor_id = (0, 0),
              neighbors = {peer_B, peer_A}\<rparr> peer_A)]"
    by code_simp
  note T = on_recv_rebroadcast [OF s o]
  have m: "peer_A \<in> visited (header (set_visited (insert (h_id A_fused_twice)
      (visited (header fuse_of_B))) fuse_of_B))"
    using T i by simp
  from T s o i n m v t e show ?thesis by blast
qed

text \<open>
  C5. A message whose id is in the seen filter changes nothing: \<open>on_recv\<close> returns the
  hub as it was, so there is no rebroadcast, no change of the log, no ack, no new peer
  record and no delivery.
\<close>

theorem on_recv_seen_is_dropped:
  "is_in (message_id m) (h_seen h) \<Longrightarrow> on_recv m h = h"
  by (simp add: on_recv_def Let_def message_id_set_visited)

theorem on_recv_seen_is_dropped_witness:
  "is_in (message_id fuse_of_B) (h_seen A_got_fuse_of_B)
 \<and> on_recv fuse_of_B A_got_fuse_of_B = A_got_fuse_of_B"
proof -
  have s: "is_in (message_id fuse_of_B) (h_seen A_got_fuse_of_B)"
    by code_simp
  from on_recv_seen_is_dropped [OF s] s show ?thesis by simp
qed

subsection \<open>Fusing\<close>

text \<open>
  C6. When the handshake reply does not decode, the completion gets
  \<open>connection_refused\<close>; when the remote version differs, \<open>no_protocol_option\<close>; when
  the version is the same and the remote id is the local one, \<open>already_connected\<close>. In
  each case the socket is closed first, the completion runs next with the nil id, nothing
  is sent, and the peer table and the log are as before.
\<close>

theorem fuse_refused:
  assumes "\<not> h_was_destroyed h"
    and "decode buffer = None \<and> e = connection_refused
       \<or> (\<exists>v i. decode buffer = Some (v, i) \<and> v \<noteq> ver \<and> e = no_protocol_option)
       \<or> (decode buffer = Some (ver, h_id h) \<and> e = already_connected)"
  shows "h_events (hub_fuse ver decode socket on_fused success buffer h)
           = h_events h @ [SocketClose socket, OnFused e 0]
       \<and> h_nodes (hub_fuse ver decode socket on_fused success buffer h) = h_nodes h
       \<and> h_log (hub_fuse ver decode socket on_fused success buffer h) = h_log h"
  using assms by (auto simp: hub_fuse_def fusion_failed_fields)

theorem fuse_refused_witness:
  "\<not> h_was_destroyed A_alone
 \<and> h_events (hub_fuse 7 (\<lambda>b. None) (Socket 5) (\<lambda>e i. False) success [] A_alone)
     = h_events A_alone @ [SocketClose (Socket 5), OnFused connection_refused 0]
 \<and> h_events (hub_fuse 7 (\<lambda>b. Some (6, peer_B)) (Socket 5) (\<lambda>e i. False) success [] A_alone)
     = h_events A_alone @ [SocketClose (Socket 5), OnFused no_protocol_option 0]
 \<and> h_events (hub_fuse 7 (\<lambda>b. Some (7, peer_A)) (Socket 5) (\<lambda>e i. False) success [] A_alone)
     = h_events A_alone @ [SocketClose (Socket 5), OnFused already_connected 0]"
proof -
  have d: "\<not> h_was_destroyed A_alone" and i: "h_id A_alone = peer_A"
    by (simp_all add: A_alone_def hub_new_def)
  from fuse_refused [OF d, of "\<lambda>b. None" "[]" connection_refused 7 "Socket 5" "\<lambda>e i. False"]
    fuse_refused [OF d, of "\<lambda>b. Some (6, peer_B)" "[]" no_protocol_option 7 "Socket 5" "\<lambda>e i. False"]
    fuse_refused [OF d, of "\<lambda>b. Some (7, peer_A)" "[]" already_connected 7 "Socket 5" "\<lambda>e i. False"]
    d i
  show ?thesis by simp
qed

subsection \<open>The destroyed flag\<close>

text \<open>
  C7. When the hub is destroyed during a callback of the commit pass, nothing more is
  done to it: if the flag is set after the entry's delivery, the walk returns the hub as
  the delivery left it; if it is set after \<open>on_insert\<close>, \<open>on_commit_fuse\<close> returns the
  hub as that callback left it, without running \<open>on_remove\<close>; and the posted commit pass
  of a destroyed hub does nothing.
\<close>

theorem destroyed_flag_is_reread:
  "(fuse_gate F live k e = Pass \<and> \<not> predecessor_gap e h
      \<and> h_was_destroyed (commit k e (take_entry k e h))
      \<longrightarrow> walk F live ((k, e) # rest) h = commit k e (take_entry k e h))
 \<and> (acked_by_quorum e \<and> quorum e - snd (configs_rbegin h) \<noteq> {}
      \<and> h_was_destroyed (Callbacks_on_insert (quorum e - snd (configs_rbegin h)) (install_quorum k e h))
      \<longrightarrow> on_commit_fuse k e h
            = Callbacks_on_insert (quorum e - snd (configs_rbegin h)) (install_quorum k e h))
 \<and> (h_was_destroyed h \<longrightarrow> posted_commit h = h)"
  by (simp add: on_commit_fuse_def Let_def posted_commit_def)

theorem destroyed_flag_is_reread_witness:
  "entries (h_log A_two_pending)
     = [((1, peer_A), LogEntry_of pending_1), ((2, peer_A), LogEntry_of pending_2)]
 \<and> h_was_destroyed (commit (1, peer_A) (LogEntry_of pending_1)
       (take_entry (1, peer_A) (LogEntry_of pending_1) A_two_pending))
 \<and> walk None {peer_A} [((1, peer_A), LogEntry_of pending_1), ((2, peer_A), LogEntry_of pending_2)]
       A_two_pending
     = commit (1, peer_A) (LogEntry_of pending_1)
         (take_entry (1, peer_A) (LogEntry_of pending_1) A_two_pending)
 \<and> map_of (entries (h_log A_committable)) (3, peer_A) = Some committable_fuse
 \<and> quorum committable_fuse - snd (configs_rbegin A_committable) = {peer_B}
 \<and> on_commit_fuse (3, peer_A) committable_fuse A_committable
     = Callbacks_on_insert (quorum committable_fuse - snd (configs_rbegin A_committable))
         (install_quorum (3, peer_A) committable_fuse A_committable)"
proof -
  have e: "entries (h_log A_two_pending)
     = [((1, peer_A), LogEntry_of pending_1), ((2, peer_A), LogEntry_of pending_2)]"
    by code_simp
  have g: "fuse_gate None {peer_A} (1, peer_A) (LogEntry_of pending_1) = Pass
      \<and> \<not> predecessor_gap (LogEntry_of pending_1) A_two_pending
      \<and> h_was_destroyed (commit (1, peer_A) (LogEntry_of pending_1)
            (take_entry (1, peer_A) (LogEntry_of pending_1) A_two_pending))"
    by code_simp
  have w: "walk None {peer_A}
       [((1, peer_A), LogEntry_of pending_1), ((2, peer_A), LogEntry_of pending_2)] A_two_pending
     = commit (1, peer_A) (LogEntry_of pending_1)
         (take_entry (1, peer_A) (LogEntry_of pending_1) A_two_pending)"
    using destroyed_flag_is_reread [of None "{peer_A}" "(1, peer_A)" "LogEntry_of pending_1"
        A_two_pending "[((2, peer_A), LogEntry_of pending_2)]"] g
    by blast
  have m: "map_of (entries (h_log A_committable)) (3, peer_A) = Some committable_fuse"
    by code_simp
  have q: "quorum committable_fuse - snd (configs_rbegin A_committable) = {peer_B}"
    by code_simp
  have c: "acked_by_quorum committable_fuse
      \<and> quorum committable_fuse - snd (configs_rbegin A_committable) \<noteq> {}
      \<and> h_was_destroyed
          (Callbacks_on_insert (quorum committable_fuse - snd (configs_rbegin A_committable))
             (install_quorum (3, peer_A) committable_fuse A_committable))"
    by code_simp
  have o: "on_commit_fuse (3, peer_A) committable_fuse A_committable
     = Callbacks_on_insert (quorum committable_fuse - snd (configs_rbegin A_committable))
         (install_quorum (3, peer_A) committable_fuse A_committable)"
    using destroyed_flag_is_reread [of None "{peer_A}" "(3, peer_A)" committable_fuse
        A_committable "[]"] c
    by blast
  from e g w m q o show ?thesis by blast
qed

subsection \<open>Adding to the log\<close>

text \<open>
  C8. With a message id at or below the last committed id, \<open>add_log_entry\<close> leaves the
  hub as it is for a message that is not a fuse, and for a fuse the log has an entry with
  a message under that id afterwards (the new entry when there was none).
\<close>

theorem add_log_entry_guard:
  assumes "message_id m \<le> last_committed (h_log h)"
  shows "(message_type m \<noteq> fuse \<longrightarrow> add_log_entry m h = h)
       \<and> (message_type m = fuse \<longrightarrow>
            (\<exists>e. map_of (entries (h_log (add_log_entry m h))) (message_id m) = Some e
                \<and> message e \<noteq> None
                \<and> (map_of (entries (h_log h)) (message_id m) = None \<longrightarrow> e = LogEntry_of m)))"
  using assms
  by (auto simp: add_log_entry_def insert_entry_def map_of_assign LogEntry_of_def
      split: option.splits)

theorem add_log_entry_guard_witness:
  "message_id fuse_of_B \<le> last_committed (h_log A_fused)
 \<and> message_type fuse_of_B = fuse
 \<and> map_of (entries (h_log (add_log_entry fuse_of_B A_fused))) (message_id fuse_of_B)
     = Some (LogEntry_of fuse_of_B)
 \<and> message_id pending_1 \<le> last_committed (h_log A_fused)
 \<and> message_type pending_1 \<noteq> fuse
 \<and> add_log_entry pending_1 A_fused = A_fused"
proof -
  have f: "message_id fuse_of_B \<le> last_committed (h_log A_fused)"
    by code_simp
  have t: "message_type fuse_of_B = fuse"
    by (simp add: fuse_of_B_def)
  have n: "map_of (entries (h_log A_fused)) (message_id fuse_of_B) = None"
    by code_simp
  have p: "message_id pending_1 \<le> last_committed (h_log A_fused)"
    by code_simp
  have u: "message_type pending_1 \<noteq> fuse"
    by (simp add: pending_1_def)
  from add_log_entry_guard [OF f] t n
  have 1: "map_of (entries (h_log (add_log_entry fuse_of_B A_fused))) (message_id fuse_of_B)
     = Some (LogEntry_of fuse_of_B)"
    by auto
  from add_log_entry_guard [OF p] u
  have 2: "add_log_entry pending_1 A_fused = A_fused"
    by blast
  from f t 1 p u 2 show ?thesis by blast
qed

subsection \<open>Unreliable frames\<close>

text \<open>
  C10. A frame whose source id does not decode, or whose source has no record in the peer
  table, leaves the hub as it is: nothing is forwarded and no callback runs.
\<close>

theorem unreliable_unknown_source_dropped:
  assumes "decode buffer = None
         \<or> (\<exists>source rest. decode buffer = Some (source, rest) \<and> map_of (h_nodes h) source = None)"
  shows "node_received_unreliable_broadcast get_targets decode buffer h = h"
  using assms by (auto simp: node_received_unreliable_broadcast_def)

theorem unreliable_unknown_source_dropped_witness:
  "map_of (h_nodes A_alone) peer_B = None
 \<and> node_received_unreliable_broadcast (\<lambda>g s. [peer_A]) (\<lambda>b. Some (peer_B, b)) [] A_alone = A_alone
 \<and> node_received_unreliable_broadcast (\<lambda>g s. [peer_A]) (\<lambda>b. None) [] A_alone = A_alone"
proof -
  have n: "map_of (h_nodes A_alone) peer_B = None"
    by (simp add: A_alone_def hub_new_def peer_A_def peer_B_def)
  from unreliable_unknown_source_dropped [of "\<lambda>b. Some (peer_B, b)" "[]" A_alone "\<lambda>g s. [peer_A]"]
    unreliable_unknown_source_dropped [of "\<lambda>b. None" "[]" A_alone "\<lambda>g s. [peer_A]"] n
  show ?thesis by simp
qed

subsection \<open>Self-replacing callbacks\<close>

lemma fold_reset_Nil: "fold reset [] cb = cb"
  by simp

lemma fold_reset_snoc:
  "fold reset (gs @ [g]) cb = (fold reset gs cb)\<lparr>was_reset := True, func := g\<rparr>"
  by (simp add: reset_def)

lemma fold_reset_nonempty:
  "gs \<noteq> [] \<Longrightarrow> was_reset (fold reset gs cb) \<and> func (fold reset gs cb) = last gs"
proof (induction gs rule: rev_induct)
  case Nil
  then show ?case by simp
next
  case (snoc g gs)
  show ?case by (simp add: reset_def)
qed

text \<open>
  C9. Invoking a slot that holds \<open>f\<close>: if the call made no \<open>reset\<close>, \<open>f\<close> is back in the
  slot afterwards; if it made some, the slot holds the argument of the last one (which may
  be the empty function), and \<open>f\<close> is not moved back.
\<close>

theorem callback_call_reset:
  assumes "func cb = Some (Func body)" and "body args = (resets, r)"
  shows "func (fst (call cb args)) = (if resets = [] then func cb else last resets)
       \<and> was_reset (fst (call cb args)) = (resets \<noteq> [])
       \<and> snd (call cb args) = Some r"
proof (cases "resets = []")
  case True
  with assms show ?thesis by (simp add: call_def)
next
  case False
  from fold_reset_nonempty [OF False]
  have "was_reset (fold reset resets (cb\<lparr>was_reset := False, func := None\<rparr>))"
    and "func (fold reset resets (cb\<lparr>was_reset := False, func := None\<rparr>)) = last resets"
    by simp_all
  with assms False show ?thesis by (simp add: call_def)
qed

theorem callback_call_reset_witness:
  "func (fst (call \<lparr>func = Some (Func (\<lambda>x::nat. ([None], True))), was_reset = False\<rparr> 0)) = None
 \<and> func (fst (call \<lparr>func = Some (Func (\<lambda>x::nat. ([], True))), was_reset = True\<rparr> 0))
     = Some (Func (\<lambda>x::nat. ([], True)))"
  using callback_call_reset [of "\<lparr>func = Some (Func (\<lambda>x::nat. ([None], True))), was_reset = False\<rparr>"
      "\<lambda>x::nat. ([None], True)" 0 "[None]" True]
    callback_call_reset [of "\<lparr>func = Some (Func (\<lambda>x::nat. ([], True))), was_reset = True\<rparr>"
      "\<lambda>x::nat. ([], True)" 0 "[]" True]
  by simp


end
